theory Spec2Isabelle
  imports Main "HOL-Library.Multiset"
begin

section \<open>The referral service: data model\<close>

text \<open>
  The development follows the most complete variant of the service (the one whose
  \<^verbatim>\<open>User\<close> model has the columns \<^verbatim>\<open>userid\<close>, \<^verbatim>\<open>wallet_address\<close>, \<^verbatim>\<open>referred_by\<close>,
  \<^verbatim>\<open>referred_users\<close>, \<^verbatim>\<open>total_referrals\<close> and \<^verbatim>\<open>created_at\<close>, and which serves
  \<^verbatim>\<open>/bulk-lookup\<close>).

  A row of the table \<^verbatim>\<open>users\<close> is a record. \<^verbatim>\<open>referred_by\<close> is nullable, so it is an
  option; \<^verbatim>\<open>total_referrals\<close> is a JavaScript number that only ever holds integers;
  \<^verbatim>\<open>created_at\<close> is a time stamp, read from a clock that the handlers receive.
\<close>

record user =
  userid :: string
  wallet_address :: string
  referred_by :: "string option"
  referred_users :: "string list"
  total_referrals :: int
  created_at :: nat

text \<open>The table is the list of its rows, in insertion order.\<close>

type_synonym store = "user list"

subsection \<open>Errors of the store\<close>

text \<open>
  Every call of the store is awaited inside the handler's \<^verbatim>\<open>try\<close> block, and a rejected
  call is caught and answered with status 500 and the error's message. A rejection is
  either one that the model computes from the row and the table (the violation of a
  uniqueness constraint: primary key \<^verbatim>\<open>userid\<close>, unique column \<^verbatim>\<open>wallet_address\<close>; a value
  longer than its column: \<^verbatim>\<open>STRING(9)\<close> is \<^verbatim>\<open>VARCHAR(9)\<close>, \<^verbatim>\<open>STRING\<close> is
  \<^verbatim>\<open>VARCHAR(255)\<close>), or any other failure of the database (a lost connection, a time-out),
  which the model does not compute: it is an input, one optional message per call of the
  store. A string is the list of its characters, and \<open>length\<close> counts them as the column
  does.
\<close>

datatype store_error = UniqueConstraintError | DatabaseError string

fun message :: "store_error \<Rightarrow> string" where
  "message UniqueConstraintError = ''Validation error''"
| "message (DatabaseError m) = m"

text \<open>
  \<open>flt k = Some m\<close> says that the \<open>k\<close>-th call of the store made by a request is rejected
  with message \<open>m\<close>; \<open>no_faults\<close> is a store that answers every call.
\<close>

type_synonym faults = "nat \<Rightarrow> string option"

definition no_faults :: faults where
  "no_faults = (\<lambda>k. None)"

subsection \<open>The calls of the store\<close>

definition findOne :: "string option \<Rightarrow> (user \<Rightarrow> bool) \<Rightarrow> store \<Rightarrow> store_error + user option" where
  "findOne f P s = (case f of Some m \<Rightarrow> Inl (DatabaseError m) | None \<Rightarrow> Inr (find P s))"

definition findAll :: "string option \<Rightarrow> (user \<Rightarrow> bool) \<Rightarrow> store \<Rightarrow> store_error + user list" where
  "findAll f P s = (case f of Some m \<Rightarrow> Inl (DatabaseError m) | None \<Rightarrow> Inr (filter P s))"

text \<open>
  \<^verbatim>\<open>User.create\<close> builds the row from the attributes it is given and the defaults of the
  model (\<^verbatim>\<open>referred_users: []\<close>, \<^verbatim>\<open>total_referrals: 0\<close>, \<^verbatim>\<open>created_at: NOW\<close>), and inserts it;
  the store rejects a row with a value longer than its column (\<^verbatim>\<open>userid\<close> and
  \<^verbatim>\<open>referred_by\<close>: 9 characters, \<^verbatim>\<open>wallet_address\<close>: 255), and a row whose \<^verbatim>\<open>userid\<close> or
  \<^verbatim>\<open>wallet_address\<close> is already in the table.
\<close>

definition too_long :: "nat \<Rightarrow> store_error" where
  "too_long n =
     DatabaseError (''value too long for type character varying('' @
       (if n = 9 then ''9'' else ''255'') @ '')'')"

definition build :: "nat \<Rightarrow> string \<Rightarrow> string \<Rightarrow> string option \<Rightarrow> user" where
  "build now uid w rb =
     \<lparr>userid = uid, wallet_address = w, referred_by = rb,
      referred_users = [], total_referrals = 0, created_at = now\<rparr>"

definition create :: "string option \<Rightarrow> user \<Rightarrow> store \<Rightarrow> store_error + (user \<times> store)" where
  "create f row s =
     (case f of
        Some m \<Rightarrow> Inl (DatabaseError m)
      | None \<Rightarrow>
          if 9 < length (userid row) then Inl (too_long 9)
          else if 255 < length (wallet_address row) then Inl (too_long 255)
          else if (case referred_by row of None \<Rightarrow> False | Some r \<Rightarrow> 9 < length r)
          then Inl (too_long 9)
          else if userid row \<in> set (map userid s) then Inl UniqueConstraintError
          else if wallet_address row \<in> set (map wallet_address s) then Inl UniqueConstraintError
          else Inr (row, s @ [row]))"

text \<open>
  \<^verbatim>\<open>instance.save()\<close> writes the changed attributes of the instance (here
  \<^verbatim>\<open>referred_users\<close> and \<^verbatim>\<open>total_referrals\<close>) to the row with the instance's primary key.
  The range of the \<^verbatim>\<open>INTEGER\<close> column, which a counter reaches after \<open>2^31\<close> referrals of
  one user, is not computed.
\<close>

definition save :: "string option \<Rightarrow> user \<Rightarrow> store \<Rightarrow> store_error + store" where
  "save f inst s =
     (case f of
        Some m \<Rightarrow> Inl (DatabaseError m)
      | None \<Rightarrow>
          Inr (map (\<lambda>u. if userid u = userid inst
                         then u\<lparr>referred_users := referred_users inst,
                                total_referrals := total_referrals inst\<rparr>
                         else u) s))"

subsection \<open>Identifiers\<close>

text \<open>
  \<^verbatim>\<open>generateUserId\<close> draws nine characters from \<^verbatim>\<open>chars\<close>. The model receives the draws:
  \<open>draw i\<close> is the value of \<^verbatim>\<open>Math.floor(Math.random() * chars.length)\<close> in round \<open>i\<close>.
  \<^verbatim>\<open>charAt\<close> is the empty string out of range.
\<close>

definition chars :: string where
  "chars = ''ABCDEFGHIJKLMNOPQRSTUVWXYZ0123456789''"

definition charAt :: "string \<Rightarrow> nat \<Rightarrow> string" where
  "charAt s i = (if i < length s then [s ! i] else [])"

function generateUserId_loop :: "(nat \<Rightarrow> nat) \<Rightarrow> nat \<Rightarrow> string \<Rightarrow> string" where
  "generateUserId_loop draw i result =
     (if i < 9 then generateUserId_loop draw (i + 1) (result @ charAt chars (draw i))
      else result)"
  by pat_completeness auto
termination
  by (relation "measure (\<lambda>(draw, i, result). 9 - i)") auto

definition generateUserId :: "(nat \<Rightarrow> nat) \<Rightarrow> string" where
  "generateUserId draw = generateUserId_loop draw 0 []"

subsection \<open>Requests and responses\<close>

text \<open>
  The body of \<^verbatim>\<open>/bulk-lookup\<close> is tested with \<^verbatim>\<open>Array.isArray\<close>, so the field
  \<^verbatim>\<open>wallet_addresses\<close> is a JSON value; its arrays are arrays of strings. The fields
  \<^verbatim>\<open>wallet_address\<close> and \<^verbatim>\<open>referred_by\<close> are strings, or absent (\<open>None\<close>).
\<close>

datatype json = JUndefined | JNull | JBool bool | JNumber int | JString string
  | JArray "string list" | JObject "(string \<times> string) list"

fun isArray :: "json \<Rightarrow> bool" where
  "isArray (JArray ws) = True"
| "isArray j = False"

text \<open>
  A JavaScript object with string values: its own properties, in insertion order.
  \<^verbatim>\<open>obj[k] = v\<close> on an object created by \<^verbatim>\<open>{}\<close> replaces the value of an own property
  \<open>k\<close>, or adds the property; but for \<^verbatim>\<open>k = "__proto__"\<close> the assignment runs the setter
  inherited from \<^verbatim>\<open>Object.prototype\<close>, which ignores a value that is neither an object nor
  \<^verbatim>\<open>null\<close>: the object gets no own property.
\<close>

type_synonym jsobject = "(string \<times> string) list"

definition obj_set :: "string \<Rightarrow> string \<Rightarrow> jsobject \<Rightarrow> jsobject" where
  "obj_set k v obj =
     (if k = ''__proto__'' then obj
      else if k \<in> set (map fst obj) then map (\<lambda>(k', v'). if k' = k then (k', v) else (k', v')) obj
      else obj @ [(k, v)])"

datatype body =
    Text string
  | Error string
  | UserInfo string string "string option" "string list" int nat
  | Registered string string string string
  | ReferralInfo string string
  | RegisteredReferred string string string int
  | Mapping jsobject

record response =
  status :: nat
  body :: body

definition reply :: "nat \<Rightarrow> body \<Rightarrow> response" where
  "reply c b = \<lparr>status = c, body = b\<rparr>"

section \<open>The handlers\<close>

text \<open>\<^verbatim>\<open>!x\<close> for a field that is a string or absent: absent and the empty string are falsy.\<close>

fun falsy :: "string option \<Rightarrow> bool" where
  "falsy None = True"
| "falsy (Some w) = (w = [])"

definition get_root :: response where
  "get_root = reply 200 (Text ''Welcome to the Express Referral System!'')"

definition get_user :: "faults \<Rightarrow> string \<Rightarrow> store \<Rightarrow> response" where
  "get_user flt w s =
     (case findOne (flt 0) (\<lambda>u. wallet_address u = w) s of
        Inl err \<Rightarrow> reply 500 (Error (message err))
      | Inr None \<Rightarrow> reply 404 (Error ''User not found for that wallet address.'')
      | Inr (Some u) \<Rightarrow>
          reply 200 (UserInfo (userid u) (wallet_address u) (referred_by u)
                       (referred_users u) (total_referrals u) (created_at u)))"

definition register :: "faults \<Rightarrow> (nat \<Rightarrow> nat) \<Rightarrow> nat \<Rightarrow> string option \<Rightarrow> store \<Rightarrow> response \<times> store" where
  "register flt draw now wallet s =
     (case wallet of
        None \<Rightarrow> (reply 400 (Error ''Missing wallet_address''), s)
      | Some w \<Rightarrow>
          if falsy wallet then (reply 400 (Error ''Missing wallet_address''), s)
          else
            (case findOne (flt 0) (\<lambda>u. wallet_address u = w) s of
               Inl err \<Rightarrow> (reply 500 (Error (message err)), s)
             | Inr (Some existingUser) \<Rightarrow>
                 (reply 400 (Error ''This wallet address is already registered.''), s)
             | Inr None \<Rightarrow>
                 (let uid = generateUserId draw in
                  case create (flt 1) (build now uid w None) s of
                    Inl err \<Rightarrow> (reply 500 (Error (message err)), s)
                  | Inr (newUser, s') \<Rightarrow>
                      (reply 201
                         (Registered ''User registered successfully''
                            (userid newUser) (wallet_address newUser)
                            (''http://localhost:3000/referral/'' @ uid)), s'))))"

definition get_referral :: "faults \<Rightarrow> string \<Rightarrow> store \<Rightarrow> response" where
  "get_referral flt uid s =
     (case findOne (flt 0) (\<lambda>u. userid u = uid) s of
        Inl err \<Rightarrow> reply 500 (Error (message err))
      | Inr None \<Rightarrow> reply 404 (Error ''Invalid user ID'')
      | Inr (Some u) \<Rightarrow> reply 200 (ReferralInfo (userid u) (wallet_address u)))"

definition register_referred ::
    "faults \<Rightarrow> (nat \<Rightarrow> nat) \<Rightarrow> nat \<Rightarrow> string option \<Rightarrow> string option \<Rightarrow> store \<Rightarrow> response \<times> store" where
  "register_referred flt draw now wallet referrer_id s =
     (case (wallet, referrer_id) of
        (Some w, Some r) \<Rightarrow>
          if falsy wallet \<or> falsy referrer_id
          then (reply 400 (Error ''Missing wallet_address or referred_by''), s)
          else
            (case findOne (flt 0) (\<lambda>u. wallet_address u = w) s of
               Inl err \<Rightarrow> (reply 500 (Error (message err)), s)
             | Inr (Some existingUser) \<Rightarrow>
                 (reply 400 (Error ''This wallet address is already registered.''), s)
             | Inr None \<Rightarrow>
                 (case findOne (flt 1) (\<lambda>u. userid u = r) s of
                    Inl err \<Rightarrow> (reply 500 (Error (message err)), s)
                  | Inr None \<Rightarrow> (reply 404 (Error ''Referrer not found''), s)
                  | Inr (Some referrer) \<Rightarrow>
                      (let uid = generateUserId draw in
                       case create (flt 2) (build now uid w (Some r)) s of
                         Inl err \<Rightarrow> (reply 500 (Error (message err)), s)
                       | Inr (newUser, s') \<Rightarrow>
                           (let referrer' = referrer
                                  \<lparr>referred_users := referred_users referrer @ [uid],
                                   total_referrals := total_referrals referrer + 1\<rparr>
                            in case save (flt 3) referrer' s' of
                                 Inl err \<Rightarrow> (reply 500 (Error (message err)), s')
                               | Inr s'' \<Rightarrow>
                                   (reply 201
                                      (RegisteredReferred
                                         ''User registered with referral successfully''
                                         (userid newUser) (wallet_address newUser)
                                         (total_referrals referrer')), s'')))))
      | _ \<Rightarrow> (reply 400 (Error ''Missing wallet_address or referred_by''), s))"

text \<open>
  The loop of \<^verbatim>\<open>/bulk-lookup\<close>: \<^verbatim>\<open>users.forEach(user => { mapping[user.wallet_address] =
  user.userid; })\<close>, started on \<^verbatim>\<open>mapping = {}\<close>.
\<close>

definition forEach_user :: "user list \<Rightarrow> jsobject \<Rightarrow> jsobject" where
  "forEach_user users mapping =
     fold (\<lambda>u mapping. obj_set (wallet_address u) (userid u) mapping) users mapping"

definition bulk_lookup :: "faults \<Rightarrow> json \<Rightarrow> store \<Rightarrow> response" where
  "bulk_lookup flt wallet_addresses s =
     (if \<not> isArray wallet_addresses
      then reply 400 (Error ''wallet_addresses must be an array'')
      else
        (case wallet_addresses of
           JArray ws \<Rightarrow>
             (case findAll (flt 0) (\<lambda>u. wallet_address u \<in> set ws) s of
                Inl err \<Rightarrow> reply 500 (Error (message err))
              | Inr users \<Rightarrow> reply 200 (Mapping (forEach_user users [])))
         | _ \<Rightarrow> reply 400 (Error ''wallet_addresses must be an array'')))"

section \<open>The service as a transition system\<close>

datatype request =
    GetRoot
  | GetUser string
  | PostRegister "string option"
  | GetReferral string
  | PostRegisterReferred "string option" "string option"
  | PostBulkLookup json

text \<open>What a request meets besides the table: the store's failures, the random draws, the clock.\<close>

record env =
  failing :: faults
  draws :: "nat \<Rightarrow> nat"
  clock :: nat

fun handle :: "env \<Rightarrow> request \<Rightarrow> store \<Rightarrow> response \<times> store" where
  "handle e GetRoot s = (get_root, s)"
| "handle e (GetUser w) s = (get_user (failing e) w s, s)"
| "handle e (PostRegister w) s = register (failing e) (draws e) (clock e) w s"
| "handle e (GetReferral uid) s = (get_referral (failing e) uid s, s)"
| "handle e (PostRegisterReferred w r) s = register_referred (failing e) (draws e) (clock e) w r s"
| "handle e (PostBulkLookup ws) s = (bulk_lookup (failing e) ws s, s)"

text \<open>The states the table can be in, starting empty, after any requests whatever.\<close>

inductive reachable :: "store \<Rightarrow> bool" where
  reachable_init: "reachable []"
| reachable_step: "reachable s \<Longrightarrow> reachable (snd (handle e rq s))"

text \<open>A request succeeds when it is answered with status 200 or 201.\<close>

definition succeeds :: "response \<Rightarrow> bool" where
  "succeeds r = (status r = 200 \<or> status r = 201)"

text \<open>The states the table can be in after requests that all succeeded.\<close>

inductive reachable_ok :: "store \<Rightarrow> bool" where
  reachable_ok_init: "reachable_ok []"
| reachable_ok_step:
    "reachable_ok s \<Longrightarrow> succeeds (fst (handle e rq s)) \<Longrightarrow> reachable_ok (snd (handle e rq s))"

section \<open>Invariants of the table\<close>

text \<open>
  What holds of the table in every reachable state: the primary key and the wallet
  addresses are unique, no wallet address is empty, \<^verbatim>\<open>referred_by\<close> names another row of
  the table, and every \<^verbatim>\<open>referred_users\<close> holds identifiers of the table.
\<close>

definition wf_store :: "store \<Rightarrow> bool" where
  "wf_store s \<longleftrightarrow>
     distinct (map userid s) \<and> distinct (map wallet_address s) \<and>
     (\<forall>u \<in> set s. wallet_address u \<noteq> [] \<and>
        (\<forall>x. referred_by u = Some x \<longrightarrow> x \<in> set (map userid s) \<and> x \<noteq> userid u) \<and>
        set (referred_users u) \<subseteq> set (map userid s))"

text \<open>What \<^verbatim>\<open>referrer.save()\<close> does to a row, after the two assignments to \<^verbatim>\<open>referrer\<close>.\<close>

definition bump :: "user \<Rightarrow> string \<Rightarrow> user \<Rightarrow> user" where
  "bump referrer uid u =
     (if userid u = userid referrer
      then u\<lparr>referred_users := referred_users referrer @ [uid],
             total_referrals := total_referrals referrer + 1\<rparr>
      else u)"

text \<open>The identifiers of the rows that name \<open>uid\<close> in \<^verbatim>\<open>referred_by\<close>, in insertion order.\<close>

definition referrals_of :: "store \<Rightarrow> string \<Rightarrow> string list" where
  "referrals_of s uid = map userid (filter (\<lambda>v. referred_by v = Some uid) s)"

text \<open>
  After requests that all succeeded, \<^verbatim>\<open>referred_users\<close> is that list and
  \<^verbatim>\<open>total_referrals\<close> is its length.
\<close>

definition counts_ok :: "store \<Rightarrow> bool" where
  "counts_ok s \<longleftrightarrow>
     (\<forall>u \<in> set s. referred_users u = referrals_of s (userid u) \<and>
        total_referrals u = int (length (referred_users u)))"

subsection \<open>Example runs\<close>

text \<open>
  A store that answers every call, with given draws; the table after one registration
  (all draws 0: identifier \<^verbatim>\<open>AAAAAAAAA\<close>), and after a referred registration on top of it
  (all draws 2: identifier \<^verbatim>\<open>CCCCCCCCC\<close>).
\<close>

definition reliable :: "(nat \<Rightarrow> nat) \<Rightarrow> env" where
  "reliable d = \<lparr>failing = no_faults, draws = d, clock = 0\<rparr>"

definition store_one :: store where
  "store_one = snd (handle (reliable (\<lambda>i. 0)) (PostRegister (Some ''0xAAA'')) [])"

definition store_two :: store where
  "store_two =
     snd (handle (reliable (\<lambda>i. 2)) (PostRegisterReferred (Some ''0xCCC'') (Some ''AAAAAAAAA''))
            store_one)"

text \<open>
  A store whose fourth call (the referrer's \<^verbatim>\<open>save\<close> in \<^verbatim>\<open>/register-referred\<close>) is
  rejected, and the table after the wallet address \<^verbatim>\<open>__proto__\<close> registered.
\<close>

definition save_fails :: faults where
  "save_fails = no_faults(3 := Some ''connection terminated'')"

definition store_proto :: store where
  "store_proto = snd (handle (reliable (\<lambda>i. 0)) (PostRegister (Some ''__proto__'')) [])"

section \<open>Lemmas\<close>

subsection \<open>Identifiers\<close>



subsection \<open>Rows\<close>

lemma bump_fields [simp]:
  "userid (bump referrer uid u) = userid u"
  "wallet_address (bump referrer uid u) = wallet_address u"
  "referred_by (bump referrer uid u) = referred_by u"
  "created_at (bump referrer uid u) = created_at u"
  by (simp_all add: bump_def)

lemma build_fields [simp]:
  "userid (build now uid w rb) = uid"
  "wallet_address (build now uid w rb) = w"
  "referred_by (build now uid w rb) = rb"
  "referred_users (build now uid w rb) = []"
  "total_referrals (build now uid w rb) = 0"
  "created_at (build now uid w rb) = now"
  by (simp_all add: build_def)

lemma map_bump_keys [simp]:
  "map userid (map (bump referrer uid) s) = map userid s"
  "map wallet_address (map (bump referrer uid) s) = map wallet_address s"
  by (simp_all add: comp_def)

lemma wf_store_Nil: "wf_store []"
  by (simp add: wf_store_def)

lemma wf_store_append:
  assumes "wf_store s" "uid \<notin> set (map userid s)" "w \<notin> set (map wallet_address s)" "w \<noteq> []"
    and "\<And>x. rb = Some x \<Longrightarrow> x \<in> set (map userid s)"
  shows "wf_store (s @ [build now uid w rb])"
  using assms unfolding wf_store_def by (auto simp: image_iff)

lemma wf_store_bump:
  assumes "wf_store s" "uid \<in> set (map userid s)" "set (referred_users referrer) \<subseteq> set (map userid s)"
  shows "wf_store (map (bump referrer uid) s)"
proof -
  have "set (referred_users (bump referrer uid u)) \<subseteq> set (map userid s)" if "u \<in> set s" for u
    using that assms by (auto simp: bump_def wf_store_def)
  with assms(1) show ?thesis
    unfolding wf_store_def by (simp add: comp_def)
qed

lemma register_shape:
  assumes "register flt draw now wallet s = (resp, s')"
  shows "(s' = s \<and> status resp \<noteq> 201 \<and> status resp \<noteq> 200) \<or>
         (\<exists>w. wallet = Some w \<and> w \<noteq> [] \<and> w \<notin> set (map wallet_address s) \<and>
              generateUserId draw \<notin> set (map userid s) \<and> flt 0 = None \<and> flt 1 = None \<and>
              s' = s @ [build now (generateUserId draw) w None] \<and>
              resp = reply 201 (Registered ''User registered successfully'' (generateUserId draw) w
                                  (''http://localhost:3000/referral/'' @ generateUserId draw)))"
  using assms
  by (auto simp: register_def findOne_def create_def reply_def build_def Let_def find_None_iff
           split: option.splits sum.splits if_splits)

lemma register_referred_shape:
  assumes "register_referred flt draw now wallet rid s = (resp, s')"
  shows "(s' = s \<and> status resp \<noteq> 201 \<and> status resp \<noteq> 200) \<or>
         (\<exists>w r referrer. wallet = Some w \<and> rid = Some r \<and> w \<noteq> [] \<and> r \<noteq> [] \<and>
              w \<notin> set (map wallet_address s) \<and>
              find (\<lambda>u. userid u = r) s = Some referrer \<and>
              generateUserId draw \<notin> set (map userid s) \<and>
              flt 0 = None \<and> flt 1 = None \<and> flt 2 = None \<and>
              ((\<exists>m. flt 3 = Some m \<and> resp = reply 500 (Error m) \<and>
                  s' = s @ [build now (generateUserId draw) w (Some r)]) \<or>
               (flt 3 = None \<and>
                  s' = map (bump referrer (generateUserId draw))
                         (s @ [build now (generateUserId draw) w (Some r)]) \<and>
                  resp = reply 201 (RegisteredReferred ''User registered with referral successfully''
                                      (generateUserId draw) w (total_referrals referrer + 1)))))"
  using assms
  unfolding register_referred_def findOne_def create_def save_def Let_def
  by (auto simp: reply_def build_def bump_def find_None_iff
           split: option.splits sum.splits if_splits prod.splits)

lemma find_userid_Some:
  assumes "find (\<lambda>u. userid u = r) s = Some referrer"
  shows "referrer \<in> set s \<and> userid referrer = r"
  using assms by (auto simp: find_Some_iff)

lemma register_wf:
  assumes "wf_store s" "register flt draw now wallet s = (resp, s')"
  shows "wf_store s'"
  using register_shape [OF assms(2)] assms(1)
  by (auto intro: wf_store_append)

lemma register_referred_wf:
  assumes wf: "wf_store s" and run: "register_referred flt draw now wallet rid s = (resp, s')"
  shows "wf_store s'"
proof -
  let ?uid = "generateUserId draw"
  from register_referred_shape [OF run]
  consider "s' = s"
    | w r referrer where "w \<noteq> []" "w \<notin> set (map wallet_address s)"
        "find (\<lambda>u. userid u = r) s = Some referrer" "?uid \<notin> set (map userid s)"
        "s' = s @ [build now ?uid w (Some r)] \<or>
         s' = map (bump referrer ?uid) (s @ [build now ?uid w (Some r)])"
    by blast
  then show ?thesis
  proof cases
    case 1
    with wf show ?thesis by simp
  next
    case (2 w r referrer)
    from find_userid_Some [OF 2(3)] have ref: "referrer \<in> set s" "userid referrer = r"
      by simp_all
    then have r_in: "r \<in> set (map userid s)"
      by force
    let ?s1 = "s @ [build now ?uid w (Some r)]"
    have wf1: "wf_store ?s1"
      using wf 2(1,2,4) r_in by (intro wf_store_append) auto
    have "set (referred_users referrer) \<subseteq> set (map userid ?s1)"
      using wf ref(1) unfolding wf_store_def by auto
    then have "wf_store (map (bump referrer ?uid) ?s1)"
      using wf1 by (intro wf_store_bump) auto
    with wf1 2(5) show ?thesis
      by blast
  qed
qed

lemma handle_wf:
  assumes "wf_store s"
  shows "wf_store (snd (handle e rq s))"
proof (cases rq)
  case (PostRegister w)
  then show ?thesis
    using register_wf [OF assms, of "failing e" "draws e" "clock e" w] by (simp add: prod_eq_iff)
next
  case (PostRegisterReferred w r)
  then show ?thesis
    using register_referred_wf [OF assms, of "failing e" "draws e" "clock e" w r]
    by (simp add: prod_eq_iff)
qed (use assms in simp_all)

lemma reachable_wf: "reachable s \<Longrightarrow> wf_store s"
  by (induction rule: reachable.induct) (simp_all add: wf_store_Nil handle_wf)

subsection \<open>Lookups\<close>

lemma find_userid_bump:
  "find (\<lambda>u. userid u = r) (map (bump referrer uid) s) =
     map_option (bump referrer uid) (find (\<lambda>u. userid u = r) s)"
  by (induction s) simp_all

lemma find_append_Some:
  "find P s = Some x \<Longrightarrow> find P (s @ t) = Some x"
  by (induction s) (auto split: if_splits)

lemma find_wallet_last:
  "w \<notin> set (map wallet_address s) \<Longrightarrow> wallet_address x = w \<Longrightarrow>
   find (\<lambda>u. wallet_address u = w) (s @ [x]) = Some x"
  by (induction s) auto

lemma find_wallet_registered:
  assumes "w \<in> set (map wallet_address s)"
  shows "\<exists>u. find (\<lambda>u. wallet_address u = w) s = Some u"
  using assms by (cases "find (\<lambda>u. wallet_address u = w) s") (auto simp: find_None_iff)

lemma registered_nonempty:
  assumes "reachable s" "w \<in> set (map wallet_address s)"
  shows "w \<noteq> []"
  using reachable_wf [OF assms(1)] assms(2) by (auto simp: wf_store_def)

lemma find_filter:
  "find P (filter Q s) = find (\<lambda>x. Q x \<and> P x) s"
  by (induction s) auto

subsection \<open>Referral lists and counters\<close>

lemma referrals_of_append [simp]:
  "referrals_of (s @ t) uid = referrals_of s uid @ referrals_of t uid"
  by (simp add: referrals_of_def)

lemma referrals_of_build [simp]:
  "referrals_of [build now uid w rb] x = (if rb = Some x then [uid] else [])"
  by (simp add: referrals_of_def)

lemma referrals_of_bump [simp]:
  "referrals_of (map (bump referrer uid) s) x = referrals_of s x"
  by (induction s) (simp_all add: referrals_of_def)

lemma referrals_of_fresh:
  assumes "wf_store s" "uid \<notin> set (map userid s)"
  shows "referrals_of s uid = []"
  using assms unfolding referrals_of_def wf_store_def
  by (auto simp: filter_empty_conv)

lemma counts_ok_Nil: "counts_ok []"
  by (simp add: counts_ok_def)

lemma counts_ok_register:
  assumes "wf_store s" "counts_ok s" "uid \<notin> set (map userid s)"
  shows "counts_ok (s @ [build now uid w None])"
  using assms(2) referrals_of_fresh [OF assms(1,3)]
  by (auto simp: counts_ok_def)

lemma distinct_userid_eq:
  assumes "distinct (map userid s)" "u \<in> set s" "v \<in> set s" "userid u = userid v"
  shows "u = v"
  using assms by (meson distinct_map inj_onD)

lemma counts_ok_referred:
  assumes wf: "wf_store s" and ok: "counts_ok s"
    and fresh: "uid \<notin> set (map userid s)"
    and ref: "referrer \<in> set s" "userid referrer = r"
  shows "counts_ok (map (bump referrer uid) (s @ [build now uid w (Some r)]))"
  unfolding counts_ok_def
proof
  let ?new = "build now uid w (Some r)"
  let ?s' = "map (bump referrer uid) (s @ [?new])"
  fix u' assume "u' \<in> set ?s'"
  then obtain u where u: "u \<in> set s \<or> u = ?new" and u': "u' = bump referrer uid u"
    by auto
  have ne: "uid \<noteq> r"
    using fresh ref by force
  have all: "referrals_of ?s' x = referrals_of s x @ (if r = x then [uid] else [])" for x
    by (simp del: map_append)
  from u show "referred_users u' = referrals_of ?s' (userid u') \<and>
               total_referrals u' = int (length (referred_users u'))"
  proof
    assume in_s: "u \<in> set s"
    with ok have old: "referred_users u = referrals_of s (userid u)"
        "total_referrals u = int (length (referred_users u))"
      by (simp_all add: counts_ok_def)
    show ?thesis
    proof (cases "userid u = r")
      case True
      with wf in_s ref have "u = referrer"
        by (auto simp: wf_store_def intro: distinct_userid_eq)
      with old True ref show ?thesis
        unfolding u' all by (simp add: bump_def)
    next
      case False
      with old ref show ?thesis
        unfolding u' all by (auto simp add: bump_def)
    qed
  next
    assume "u = ?new"
    with ne ref referrals_of_fresh [OF wf fresh] show ?thesis
      unfolding u' all by (simp add: bump_def)
  qed
qed

lemma handle_counts_ok:
  assumes wf: "wf_store s" and ok: "counts_ok s" and good: "succeeds (fst (handle e rq s))"
  shows "counts_ok (snd (handle e rq s))"
proof (cases rq)
  case (PostRegister w)
  obtain resp s' where run: "register (failing e) (draws e) (clock e) w s = (resp, s')"
    by force
  with good PostRegister have "status resp = 200 \<or> status resp = 201"
    by (simp add: succeeds_def)
  with register_shape [OF run] have "s' = s @ [build (clock e) (generateUserId (draws e)) (the w) None]"
      "generateUserId (draws e) \<notin> set (map userid s)"
    by auto
  with wf ok show ?thesis
    unfolding PostRegister by (simp add: run counts_ok_register)
next
  case (PostRegisterReferred w r)
  obtain resp s' where run: "register_referred (failing e) (draws e) (clock e) w r s = (resp, s')"
    by force
  with good PostRegisterReferred have st: "status resp = 200 \<or> status resp = 201"
    by (simp add: succeeds_def)
  from register_referred_shape [OF run] st
  obtain w' r' referrer where
      found: "find (\<lambda>u. userid u = r') s = Some referrer"
      and fresh: "generateUserId (draws e) \<notin> set (map userid s)"
      and s': "s' = map (bump referrer (generateUserId (draws e)))
              (s @ [build (clock e) (generateUserId (draws e)) w' (Some r')])"
    by (auto simp: reply_def)
  from find_userid_Some [OF found] have "referrer \<in> set s" "userid referrer = r'"
    by simp_all
  from counts_ok_referred [OF wf ok fresh this] have "counts_ok s'"
    unfolding s' .
  then show ?thesis
    unfolding PostRegisterReferred by (simp add: run)
qed (use ok in simp_all)

lemma reachable_ok_reachable: "reachable_ok s \<Longrightarrow> reachable s"
  by (induction rule: reachable_ok.induct) (auto intro: reachable.intros)

lemma reachable_ok_counts: "reachable_ok s \<Longrightarrow> counts_ok s"
proof (induction rule: reachable_ok.induct)
  case reachable_ok_init
  show ?case by (rule counts_ok_Nil)
next
  case (reachable_ok_step s e rq)
  then show ?case
    by (intro handle_counts_ok reachable_wf reachable_ok_reachable)
qed

subsection \<open>The example runs\<close>

lemma generateUserId_0: "generateUserId (\<lambda>i. 0) = ''AAAAAAAAA''"
  by (simp add: generateUserId_def chars_def charAt_def)

lemma generateUserId_2: "generateUserId (\<lambda>i. 2) = ''CCCCCCCCC''"
  by (simp add: generateUserId_def chars_def charAt_def)

lemma first_register:
  "handle (reliable (\<lambda>i. 0)) (PostRegister (Some ''0xAAA'')) [] =
     (reply 201 (Registered ''User registered successfully'' ''AAAAAAAAA'' ''0xAAA''
                   ''http://localhost:3000/referral/AAAAAAAAA''),
      [\<lparr>userid = ''AAAAAAAAA'', wallet_address = ''0xAAA'', referred_by = None,
        referred_users = [], total_referrals = 0, created_at = 0\<rparr>])"
  by (simp add: reliable_def register_def findOne_def create_def build_def no_faults_def
        generateUserId_0 Let_def)

lemma store_one_rows:
  "store_one = [\<lparr>userid = ''AAAAAAAAA'', wallet_address = ''0xAAA'', referred_by = None,
                 referred_users = [], total_referrals = 0, created_at = 0\<rparr>]"
  by (simp only: store_one_def first_register snd_conv)

lemma second_register:
  "handle (reliable (\<lambda>i. 2)) (PostRegisterReferred (Some ''0xCCC'') (Some ''AAAAAAAAA'')) store_one =
     (reply 201 (RegisteredReferred ''User registered with referral successfully''
                   ''CCCCCCCCC'' ''0xCCC'' 1),
      [\<lparr>userid = ''AAAAAAAAA'', wallet_address = ''0xAAA'', referred_by = None,
        referred_users = [''CCCCCCCCC''], total_referrals = 1, created_at = 0\<rparr>,
       \<lparr>userid = ''CCCCCCCCC'', wallet_address = ''0xCCC'', referred_by = Some ''AAAAAAAAA'',
        referred_users = [], total_referrals = 0, created_at = 0\<rparr>])"
  by (simp add: store_one_rows reliable_def register_referred_def findOne_def create_def save_def
        build_def no_faults_def generateUserId_2 Let_def)

lemma store_two_rows:
  "store_two =
     [\<lparr>userid = ''AAAAAAAAA'', wallet_address = ''0xAAA'', referred_by = None,
       referred_users = [''CCCCCCCCC''], total_referrals = 1, created_at = 0\<rparr>,
      \<lparr>userid = ''CCCCCCCCC'', wallet_address = ''0xCCC'', referred_by = Some ''AAAAAAAAA'',
       referred_users = [], total_referrals = 0, created_at = 0\<rparr>]"
  by (simp only: store_two_def second_register snd_conv)

lemma reachable_ok_store_one: "reachable_ok store_one"
  unfolding store_one_def
  by (rule reachable_ok_step [OF reachable_ok_init])
     (simp only: first_register fst_conv, simp add: succeeds_def reply_def)

lemma reachable_ok_store_two: "reachable_ok store_two"
  unfolding store_two_def
  by (rule reachable_ok_step [OF reachable_ok_store_one])
     (simp only: second_register fst_conv, simp add: succeeds_def reply_def)

lemma store_proto_rows:
  "store_proto = [\<lparr>userid = ''AAAAAAAAA'', wallet_address = ''__proto__'', referred_by = None,
                   referred_users = [], total_referrals = 0, created_at = 0\<rparr>]"
  by (simp add: store_proto_def reliable_def register_def findOne_def create_def build_def
        no_faults_def generateUserId_0 Let_def)

subsection \<open>The mapping of the bulk lookup\<close>

lemma obj_set_keys:
  "map fst (obj_set k v obj) =
     (if k = ''__proto__'' \<or> k \<in> set (map fst obj) then map fst obj else map fst obj @ [k])"
proof -
  have "map fst (map (\<lambda>(k', v'). if k' = k then (k', v) else (k', v')) obj) = map fst obj"
    by (induction obj) auto
  then show ?thesis
    by (simp add: obj_set_def)
qed

lemma obj_set_distinct:
  "distinct (map fst obj) \<Longrightarrow> distinct (map fst (obj_set k v obj))"
  by (simp add: obj_set_keys)

lemma forEach_user_distinct:
  "distinct (map fst mapping) \<Longrightarrow> distinct (map fst (forEach_user users mapping))"
  unfolding forEach_user_def
  by (induction users arbitrary: mapping) (simp_all add: obj_set_distinct)

lemma map_of_replace_other:
  "a \<noteq> k \<Longrightarrow>
   map_of (map (\<lambda>(k', v'). if k' = k then (k', v) else (k', v')) obj) a = map_of obj a"
  by (induction obj) auto

lemma map_of_replace_same:
  "k \<in> set (map fst obj) \<Longrightarrow>
   map_of (map (\<lambda>(k', v'). if k' = k then (k', v) else (k', v')) obj) k = Some v"
  by (induction obj) auto

lemma map_of_obj_set:
  "map_of (obj_set k v obj) a =
     (if k = ''__proto__'' then map_of obj a else if a = k then Some v else map_of obj a)"
proof (cases "k \<in> set (map fst obj)")
  case True
  then show ?thesis
    by (simp add: obj_set_def map_of_replace_other map_of_replace_same)
next
  case False
  then have "map_of obj k = None"
    by (simp add: map_of_eq_None_iff)
  with False show ?thesis
    by (auto simp: obj_set_def map_add_def split: option.splits)
qed

lemma map_of_forEach_user:
  assumes "distinct (map wallet_address users)"
  shows "map_of (forEach_user users mapping) a =
     (if a = ''__proto__'' then map_of mapping a
      else case find (\<lambda>u. wallet_address u = a) users of
             None \<Rightarrow> map_of mapping a
           | Some u \<Rightarrow> Some (userid u))"
  using assms
proof (induction users arbitrary: mapping)
  case Nil
  then show ?case by (simp add: forEach_user_def)
next
  case (Cons u users)
  have step: "forEach_user (u # users) mapping =
              forEach_user users (obj_set (wallet_address u) (userid u) mapping)"
    by (simp add: forEach_user_def)
  from Cons.prems have d: "distinct (map wallet_address users)"
      and fresh: "wallet_address u \<notin> set (map wallet_address users)"
    by simp_all
  from fresh have "\<forall>x \<in> set users. wallet_address x \<noteq> wallet_address u"
    by (auto simp: image_iff)
  then have none: "find (\<lambda>x. wallet_address x = wallet_address u) users = None"
    by (simp add: find_None_iff)
  show ?case
    unfolding step Cons.IH [OF d]
    by (auto simp: map_of_obj_set none split: option.splits)
qed

lemma count_list_distinct:
  "distinct xs \<Longrightarrow> count_list xs a \<le> 1"
  by (induction xs) (auto simp: count_list_0_iff)

text \<open>
  What \<^verbatim>\<open>/bulk-lookup\<close> answers on an array, with a store that answers: status 200 and a
  mapping that holds, for every address of the array that is registered and is not the
  string \<^verbatim>\<open>__proto__\<close>, the identifier of its user, and nothing else; the order of the array
  (and the repetitions in it) does not matter; a value that is not an array gets status 400.
\<close>

lemma bulk_lookup_mapping:
  assumes "reachable s"
  shows "\<exists>m. bulk_lookup no_faults (JArray ws) s = reply 200 (Mapping m) \<and>
              (\<forall>a. map_of m a =
                   (if a \<in> set ws \<and> a \<noteq> ''__proto__''
                    then map_option userid (find (\<lambda>u. wallet_address u = a) s)
                    else None))"
proof -
  let ?users = "filter (\<lambda>u. wallet_address u \<in> set ws) s"
  from reachable_wf [OF assms] have "distinct (map wallet_address s)"
    by (simp add: wf_store_def)
  then have d: "distinct (map wallet_address ?users)"
    by (simp add: distinct_map_filter)
  have found: "find (\<lambda>u. wallet_address u = a) ?users =
               (if a \<in> set ws then find (\<lambda>u. wallet_address u = a) s else None)" for a
  proof (cases "a \<in> set ws")
    case True
    then have eq: "(\<lambda>x. wallet_address x \<in> set ws \<and> wallet_address x = a) = (\<lambda>u. wallet_address u = a)"
      by auto
    show ?thesis
      unfolding find_filter eq using True by simp
  next
    case False
    then show ?thesis
      by (auto simp: find_None_iff)
  qed
  have run: "bulk_lookup no_faults (JArray ws) s = reply 200 (Mapping (forEach_user ?users []))"
    by (simp add: bulk_lookup_def findAll_def no_faults_def)
  have "map_of (forEach_user ?users []) a =
          (if a \<in> set ws \<and> a \<noteq> ''__proto__''
           then map_option userid (find (\<lambda>u. wallet_address u = a) s) else None)" for a
    unfolding map_of_forEach_user [OF d] found
    by (simp split: option.splits)
  with run show ?thesis
    by blast
qed

lemma bulk_lookup_order:
  assumes "mset ws' = mset ws"
  shows "bulk_lookup flt (JArray ws') s = bulk_lookup flt (JArray ws) s"
proof -
  from assms have "set ws' = set ws"
    by (rule mset_eq_setD)
  then show ?thesis
    by (simp add: bulk_lookup_def)
qed

lemma bulk_lookup_not_array:
  "\<not> isArray j \<Longrightarrow> bulk_lookup flt j s = reply 400 (Error ''wallet_addresses must be an array'')"
  by (simp add: bulk_lookup_def)

section \<open>The claims\<close>

text \<open>
  Claim C1. In every state of the table reached from the empty table by requests that all
  succeeded (registrations, referred registrations, lookups), the \<^verbatim>\<open>total_referrals\<close> of
  every user is the number of other users whose \<^verbatim>\<open>referred_by\<close> is that user's identifier,
  and is the length of that user's \<^verbatim>\<open>referred_users\<close>.
\<close>

theorem total_referrals_counts_referred:
  assumes "reachable_ok s" and "u \<in> set s"
  shows "total_referrals u =
           int (length (filter (\<lambda>v. v \<noteq> u \<and> referred_by v = Some (userid u)) s)) \<and>
         total_referrals u = int (length (referred_users u))"
proof -
  from assms(1) have wf: "wf_store s" and ok: "counts_ok s"
    by (simp_all add: reachable_ok_counts reachable_wf reachable_ok_reachable)
  from ok assms(2) have lists: "referred_users u = referrals_of s (userid u)"
      and total: "total_referrals u = int (length (referred_users u))"
    by (simp_all add: counts_ok_def)
  have "referred_by u \<noteq> Some (userid u)"
    using wf assms(2) by (auto simp: wf_store_def)
  then have "filter (\<lambda>v. v \<noteq> u \<and> referred_by v = Some (userid u)) s =
             filter (\<lambda>v. referred_by v = Some (userid u)) s"
    by (intro filter_cong) auto
  with lists total show ?thesis
    by (simp add: referrals_of_def)
qed

theorem total_referrals_counts_referred_witness:
  "reachable_ok store_two \<and> hd store_two \<in> set store_two \<and>
   total_referrals (hd store_two) = 1 \<and>
   length (filter (\<lambda>v. v \<noteq> hd store_two \<and> referred_by v = Some (userid (hd store_two))) store_two) = 1 \<and>
   length (referred_users (hd store_two)) = 1"
proof -
  have member: "hd store_two \<in> set store_two"
    by (simp add: store_two_rows)
  from total_referrals_counts_referred [OF reachable_ok_store_two member]
  show ?thesis
    using reachable_ok_store_two by (simp add: store_two_rows)
qed

text \<open>
  Claim C2. After a referred registration that succeeds (status 201), the row of the
  referrer has \<^verbatim>\<open>total_referrals\<close> one greater than before; its \<^verbatim>\<open>referred_users\<close> is the
  list of before with the new user's identifier appended, and (in a reachable state of the
  table) holds that identifier exactly once; the identifier is the one of the new row; and
  the response's \<^verbatim>\<open>referrer_new_total\<close> is the updated counter.
\<close>

theorem register_referred_updates_referrer:
  assumes "register_referred flt draw now wallet rid s = (resp, s')"
    and "status resp = 201"
  shows "\<exists>w r before after.
           wallet = Some w \<and> rid = Some r \<and>
           find (\<lambda>u. userid u = r) s = Some before \<and>
           find (\<lambda>u. userid u = r) s' = Some after \<and>
           total_referrals after = total_referrals before + 1 \<and>
           referred_users after = referred_users before @ [generateUserId draw] \<and>
           (reachable s \<longrightarrow> count_list (referred_users after) (generateUserId draw) = 1) \<and>
           map_option userid (find (\<lambda>u. wallet_address u = w) s') = Some (generateUserId draw) \<and>
           resp = reply 201 (RegisteredReferred ''User registered with referral successfully''
                               (generateUserId draw) w (total_referrals after))"
proof -
  let ?uid = "generateUserId draw"
  from register_referred_shape [OF assms(1)] assms(2)
  obtain w r referrer where in_: "wallet = Some w" "rid = Some r"
    and new_w: "w \<notin> set (map wallet_address s)"
    and found: "find (\<lambda>u. userid u = r) s = Some referrer"
    and fresh: "?uid \<notin> set (map userid s)"
    and s': "s' = map (bump referrer ?uid) (s @ [build now ?uid w (Some r)])"
    and resp: "resp = reply 201 (RegisteredReferred ''User registered with referral successfully''
                                   ?uid w (total_referrals referrer + 1))"
    by (auto simp: reply_def)
  from find_userid_Some [OF found] have ref: "referrer \<in> set s" "userid referrer = r"
    by simp_all
  let ?after = "bump referrer ?uid referrer"
  have after: "find (\<lambda>u. userid u = r) s' = Some ?after"
    unfolding s' find_userid_bump by (simp add: find_append_Some [OF found])
  have fields: "total_referrals ?after = total_referrals referrer + 1"
      "referred_users ?after = referred_users referrer @ [?uid]"
    by (simp_all add: bump_def)
  have once: "count_list (referred_users ?after) ?uid = 1" if "reachable s"
  proof -
    from reachable_wf [OF that] ref(1) fresh have "?uid \<notin> set (referred_users referrer)"
      by (auto simp: wf_store_def)
    then show ?thesis
      by (simp add: fields count_list_0_iff)
  qed
  have "find (\<lambda>u. wallet_address u = w) (map (bump referrer ?uid) (s @ [build now ?uid w (Some r)]))
          = Some (bump referrer ?uid (build now ?uid w (Some r)))"
  proof -
    have "find (\<lambda>u. wallet_address u = w) (map (bump referrer ?uid) s @ [bump referrer ?uid (build now ?uid w (Some r))])
          = Some (bump referrer ?uid (build now ?uid w (Some r)))"
      by (rule find_wallet_last) (use new_w in simp_all)
    then show ?thesis by simp
  qed
  then have new: "map_option userid (find (\<lambda>u. wallet_address u = w) s') = Some ?uid"
    unfolding s' by simp
  show ?thesis
    using in_ found after fields once new resp by simp
qed

theorem register_referred_updates_referrer_witness:
  "reachable store_one \<and>
   register_referred no_faults (\<lambda>i. 2) 0 (Some ''0xCCC'') (Some ''AAAAAAAAA'') store_one =
     (reply 201 (RegisteredReferred ''User registered with referral successfully''
                   ''CCCCCCCCC'' ''0xCCC'' 1), store_two) \<and>
   status (reply 201 (RegisteredReferred ''User registered with referral successfully''
                   ''CCCCCCCCC'' ''0xCCC'' 1)) = 201 \<and>
   (\<exists>before after.
      find (\<lambda>u. userid u = ''AAAAAAAAA'') store_one = Some before \<and>
      find (\<lambda>u. userid u = ''AAAAAAAAA'') store_two = Some after \<and>
      total_referrals after = total_referrals before + 1 \<and>
      referred_users after = referred_users before @ [''CCCCCCCCC''] \<and>
      count_list (referred_users after) ''CCCCCCCCC'' = 1)"
proof -
  have r: "reachable store_one"
    by (rule reachable_ok_reachable [OF reachable_ok_store_one])
  have run: "register_referred no_faults (\<lambda>i. 2) 0 (Some ''0xCCC'') (Some ''AAAAAAAAA'') store_one =
     (reply 201 (RegisteredReferred ''User registered with referral successfully''
                   ''CCCCCCCCC'' ''0xCCC'' 1), store_two)"
    using second_register by (simp add: reliable_def store_two_rows)
  have st: "status (reply 201 (RegisteredReferred ''User registered with referral successfully''
                   ''CCCCCCCCC'' ''0xCCC'' 1)) = 201"
    by (simp add: reply_def)
  from register_referred_updates_referrer [OF run st] r run st
  show ?thesis
    by (simp add: generateUserId_2) blast
qed

text \<open>
  Claim C3. When a user with wallet address \<open>w\<close> is in the table (a reachable state, a
  store that answers), \<^verbatim>\<open>POST /register\<close> with \<open>w\<close> is answered with status 400 and the
  error \<^verbatim>\<open>This wallet address is already registered.\<close>, and the table is unchanged.
\<close>

theorem register_duplicate_wallet:
  assumes "reachable s" and "w \<in> set (map wallet_address s)"
  shows "register no_faults draw now (Some w) s =
           (reply 400 (Error ''This wallet address is already registered.''), s)"
proof -
  from find_wallet_registered [OF assms(2)]
  obtain u where "find (\<lambda>u. wallet_address u = w) s = Some u" ..
  with registered_nonempty [OF assms] show ?thesis
    by (simp add: register_def findOne_def no_faults_def)
qed

theorem register_duplicate_wallet_witness:
  "reachable store_one \<and> ''0xAAA'' \<in> set (map wallet_address store_one) \<and>
   register no_faults (\<lambda>i. 5) 7 (Some ''0xAAA'') store_one =
     (reply 400 (Error ''This wallet address is already registered.''), store_one)"
proof -
  have r: "reachable store_one"
    by (rule reachable_ok_reachable [OF reachable_ok_store_one])
  have m: "''0xAAA'' \<in> set (map wallet_address store_one)"
    by (simp add: store_one_rows)
  from register_duplicate_wallet [OF r m, of "\<lambda>i. 5" 7] r m show ?thesis
    by simp
qed

text \<open>
  Claim C4, as stated, for every value \<open>r\<close>: it fails for the empty \<open>r\<close>, which the field
  check answers first, with another error.
\<close>

theorem register_referred_duplicate_wallet_counterexample:
  "reachable store_one \<and> ''0xAAA'' \<in> set (map wallet_address store_one) \<and>
   register_referred no_faults (\<lambda>i. 2) 0 (Some ''0xAAA'') (Some []) store_one =
     (reply 400 (Error ''Missing wallet_address or referred_by''), store_one) \<and>
   Error ''Missing wallet_address or referred_by'' \<noteq>
     Error ''This wallet address is already registered.''"
proof -
  have r: "reachable store_one"
    by (rule reachable_ok_reachable [OF reachable_ok_store_one])
  then show ?thesis
    by (simp add: store_one_rows register_referred_def)
qed

text \<open>
  Claim C4, amended. When \<open>w\<close> is registered, a referred registration of \<open>w\<close> is answered
  with status 400 (so never with 404) and leaves the table unchanged, whatever the field
  \<^verbatim>\<open>referred_by\<close>. When that field is empty or absent the answer is the missing-field
  error; when it is a non-empty \<open>r\<close> the answer is the duplicate-wallet error, whether or
  not \<open>r\<close> names a user: the wallet is looked up before the referrer.
\<close>

theorem register_referred_duplicate_wallet:
  assumes "reachable s" and "w \<in> set (map wallet_address s)"
  shows "status (fst (register_referred no_faults draw now (Some w) rid s)) = 400 \<and>
         snd (register_referred no_faults draw now (Some w) rid s) = s \<and>
         (falsy rid \<longrightarrow>
            register_referred no_faults draw now (Some w) rid s =
              (reply 400 (Error ''Missing wallet_address or referred_by''), s)) \<and>
         (r \<noteq> [] \<longrightarrow>
            register_referred no_faults draw now (Some w) (Some r) s =
              (reply 400 (Error ''This wallet address is already registered.''), s))"
proof -
  from find_wallet_registered [OF assms(2)]
  obtain u where "find (\<lambda>u. wallet_address u = w) s = Some u" ..
  with registered_nonempty [OF assms] show ?thesis
    by (cases rid) (simp_all add: register_referred_def findOne_def no_faults_def reply_def)
qed

theorem register_referred_duplicate_wallet_witness:
  "reachable store_two \<and> ''0xCCC'' \<in> set (map wallet_address store_two) \<and>
   falsy None \<and>
   register_referred no_faults (\<lambda>i. 3) 0 (Some ''0xCCC'') None store_two =
     (reply 400 (Error ''Missing wallet_address or referred_by''), store_two) \<and>
   status (fst (register_referred no_faults (\<lambda>i. 3) 0 (Some ''0xCCC'') None store_two)) = 400 \<and>
   snd (register_referred no_faults (\<lambda>i. 3) 0 (Some ''0xCCC'') None store_two) = store_two \<and>
   ''ZZZZZZZZZ'' \<noteq> [] \<and> find (\<lambda>u. userid u = ''ZZZZZZZZZ'') store_two = None \<and>
   register_referred no_faults (\<lambda>i. 3) 0 (Some ''0xCCC'') (Some ''ZZZZZZZZZ'') store_two =
     (reply 400 (Error ''This wallet address is already registered.''), store_two)"
proof -
  have r: "reachable store_two"
    by (rule reachable_ok_reachable [OF reachable_ok_store_two])
  have m: "''0xCCC'' \<in> set (map wallet_address store_two)"
    by (simp add: store_two_rows)
  have z: "''ZZZZZZZZZ'' \<noteq> [] \<and> find (\<lambda>u. userid u = ''ZZZZZZZZZ'') store_two = None"
    by (simp add: store_two_rows)
  from register_referred_duplicate_wallet [OF r m, of "\<lambda>i. 3" 0 None "''ZZZZZZZZZ''"] r m z
  show ?thesis
    by (simp add: reply_def)
qed

text \<open>
  Claim C5, as stated: it fails when the store rejects the referrer's \<^verbatim>\<open>save\<close> after the
  insert went through. The request is answered with status 500 and the new row stays.
\<close>

theorem register_referred_failure_counterexample:
  "register_referred save_fails (\<lambda>i. 2) 0 (Some ''0xCCC'') (Some ''AAAAAAAAA'') store_one =
     (reply 500 (Error ''connection terminated''),
      store_one @ [build 0 ''CCCCCCCCC'' ''0xCCC'' (Some ''AAAAAAAAA'')]) \<and>
   store_one @ [build 0 ''CCCCCCCCC'' ''0xCCC'' (Some ''AAAAAAAAA'')] \<noteq> store_one \<and>
   ''0xCCC'' \<in> set (map wallet_address
      (snd (register_referred save_fails (\<lambda>i. 2) 0 (Some ''0xCCC'') (Some ''AAAAAAAAA'') store_one)))"
  by (simp add: store_one_rows register_referred_def findOne_def create_def save_def build_def
        save_fails_def no_faults_def generateUserId_2 Let_def)

text \<open>
  Claim C5, amended. A referred registration that fails leaves every row that was in the
  table as it was (the referrer's counter and list are not touched). It leaves the whole
  table unchanged unless both lookups and the insert went through and the referrer's
  \<^verbatim>\<open>save\<close> is rejected: a rejected wallet lookup, a rejected referrer lookup and a rejected
  insert are each answered with status 500 and the error's message on an unchanged table;
  a rejected \<^verbatim>\<open>save\<close> after the insert is answered with status 500 and the error's
  message, and the table is the old one with the new row for \<open>w\<close> appended. With non-empty
  fields, an unregistered wallet and an \<open>r\<close> that is no user's identifier, a store that
  answers gives status 404 and an unchanged table.
\<close>

theorem register_referred_failure:
  "(register_referred flt draw now wallet rid s = (resp, s') \<and> status resp \<noteq> 201 \<longrightarrow>
      take (length s) s' = s \<and>
      (flt 3 = None \<longrightarrow> s' = s) \<and>
      (s' \<noteq> s \<longrightarrow> flt 0 = None \<and> flt 1 = None \<and> flt 2 = None \<and>
         (\<exists>m. flt 3 = Some m \<and> resp = reply 500 (Error m)) \<and>
         (\<exists>w r. wallet = Some w \<and> rid = Some r \<and>
                s' = s @ [build now (generateUserId draw) w (Some r)]))) \<and>
   (w \<noteq> [] \<and> r \<noteq> [] \<and> findOne (flt 0) (\<lambda>u. wallet_address u = w) s = Inl e \<longrightarrow>
      register_referred flt draw now (Some w) (Some r) s = (reply 500 (Error (message e)), s)) \<and>
   (w \<noteq> [] \<and> r \<noteq> [] \<and> findOne (flt 0) (\<lambda>u. wallet_address u = w) s = Inr None \<and>
    findOne (flt 1) (\<lambda>u. userid u = r) s = Inl e \<longrightarrow>
      register_referred flt draw now (Some w) (Some r) s = (reply 500 (Error (message e)), s)) \<and>
   (w \<noteq> [] \<and> r \<noteq> [] \<and> findOne (flt 0) (\<lambda>u. wallet_address u = w) s = Inr None \<and>
    findOne (flt 1) (\<lambda>u. userid u = r) s = Inr (Some referrer) \<and>
    create (flt 2) (build now (generateUserId draw) w (Some r)) s = Inl e \<longrightarrow>
      register_referred flt draw now (Some w) (Some r) s = (reply 500 (Error (message e)), s)) \<and>
   (w \<noteq> [] \<and> r \<noteq> [] \<and> findOne (flt 0) (\<lambda>u. wallet_address u = w) s = Inr None \<and>
    findOne (flt 1) (\<lambda>u. userid u = r) s = Inr (Some referrer) \<and>
    create (flt 2) (build now (generateUserId draw) w (Some r)) s = Inr (newUser, s1) \<and>
    save (flt 3)
      (referrer\<lparr>referred_users := referred_users referrer @ [generateUserId draw],
                total_referrals := total_referrals referrer + 1\<rparr>) s1 = Inl e \<longrightarrow>
      register_referred flt draw now (Some w) (Some r) s =
        (reply 500 (Error (message e)), s @ [build now (generateUserId draw) w (Some r)]) \<and>
      s @ [build now (generateUserId draw) w (Some r)] \<noteq> s) \<and>
   (w \<noteq> [] \<and> r \<noteq> [] \<and> w \<notin> set (map wallet_address s) \<and> r \<notin> set (map userid s) \<longrightarrow>
      register_referred no_faults draw now (Some w) (Some r) s =
        (reply 404 (Error ''Referrer not found''), s))"
proof (intro conjI impI)
  assume run: "register_referred flt draw now wallet rid s = (resp, s') \<and> status resp \<noteq> 201"
  from register_referred_shape [of flt draw now wallet rid s resp s'] run
  consider "s' = s"
    | w r m where "wallet = Some w" "rid = Some r" "flt 0 = None" "flt 1 = None" "flt 2 = None"
        "flt 3 = Some m" "resp = reply 500 (Error m)"
        "s' = s @ [build now (generateUserId draw) w (Some r)]"
    by (auto simp: reply_def)
  note cases = this
  show "take (length s) s' = s"
    by (rule cases) simp_all
  show "s' = s" if "flt 3 = None"
    by (rule cases) (use that in simp_all)
  show "flt 0 = None" if "s' \<noteq> s"
    by (rule cases) (use that in simp_all)
  show "flt 1 = None" if "s' \<noteq> s"
    by (rule cases) (use that in simp_all)
  show "flt 2 = None" if "s' \<noteq> s"
    by (rule cases) (use that in simp_all)
  show "\<exists>m. flt 3 = Some m \<and> resp = reply 500 (Error m)" if "s' \<noteq> s"
    by (rule cases) (use that in simp_all)
  show "\<exists>w r. wallet = Some w \<and> rid = Some r \<and>
                s' = s @ [build now (generateUserId draw) w (Some r)]" if "s' \<noteq> s"
    by (rule cases) (use that in simp_all)
next
  assume "w \<noteq> [] \<and> r \<noteq> [] \<and> findOne (flt 0) (\<lambda>u. wallet_address u = w) s = Inl e"
  then show "register_referred flt draw now (Some w) (Some r) s = (reply 500 (Error (message e)), s)"
    by (simp add: register_referred_def)
next
  assume "w \<noteq> [] \<and> r \<noteq> [] \<and> findOne (flt 0) (\<lambda>u. wallet_address u = w) s = Inr None \<and>
    findOne (flt 1) (\<lambda>u. userid u = r) s = Inl e"
  then show "register_referred flt draw now (Some w) (Some r) s = (reply 500 (Error (message e)), s)"
    by (simp add: register_referred_def)
next
  assume "w \<noteq> [] \<and> r \<noteq> [] \<and> findOne (flt 0) (\<lambda>u. wallet_address u = w) s = Inr None \<and>
    findOne (flt 1) (\<lambda>u. userid u = r) s = Inr (Some referrer) \<and>
    create (flt 2) (build now (generateUserId draw) w (Some r)) s = Inl e"
  then show "register_referred flt draw now (Some w) (Some r) s = (reply 500 (Error (message e)), s)"
    by (simp add: register_referred_def Let_def)
next
  assume pre: "w \<noteq> [] \<and> r \<noteq> [] \<and> findOne (flt 0) (\<lambda>u. wallet_address u = w) s = Inr None \<and>
    findOne (flt 1) (\<lambda>u. userid u = r) s = Inr (Some referrer) \<and>
    create (flt 2) (build now (generateUserId draw) w (Some r)) s = Inr (newUser, s1) \<and>
    save (flt 3)
      (referrer\<lparr>referred_users := referred_users referrer @ [generateUserId draw],
                total_referrals := total_referrals referrer + 1\<rparr>) s1 = Inl e"
  then have s1: "s1 = s @ [build now (generateUserId draw) w (Some r)]"
    by (auto simp: create_def split: option.splits if_splits)
  from pre show "register_referred flt draw now (Some w) (Some r) s =
        (reply 500 (Error (message e)), s @ [build now (generateUserId draw) w (Some r)])"
    unfolding s1 [symmetric] by (simp add: register_referred_def Let_def)
  show "s @ [build now (generateUserId draw) w (Some r)] \<noteq> s"
    by simp
next
  assume "w \<noteq> [] \<and> r \<noteq> [] \<and> w \<notin> set (map wallet_address s) \<and> r \<notin> set (map userid s)"
  then have "w \<noteq> []" "r \<noteq> []" "find (\<lambda>u. wallet_address u = w) s = None"
      "find (\<lambda>u. userid u = r) s = None"
    by (auto simp: find_None_iff)
  then show "register_referred no_faults draw now (Some w) (Some r) s =
        (reply 404 (Error ''Referrer not found''), s)"
    by (simp add: register_referred_def findOne_def no_faults_def)
qed

theorem register_referred_failure_witness:
  "register_referred (no_faults(2 := Some ''timeout'')) (\<lambda>i. 2) 0 (Some ''0xCCC'') (Some ''AAAAAAAAA'') store_one =
     (reply 500 (Error ''timeout''), store_one) \<and>
   status (reply 500 (Error ''timeout'')) \<noteq> 201 \<and>
   take (length store_one) store_one = store_one \<and>
   findOne ((no_faults(0 := Some ''down'')) 0) (\<lambda>u. wallet_address u = ''0xCCC'') store_one =
     Inl (DatabaseError ''down'') \<and>
   register_referred (no_faults(0 := Some ''down'')) (\<lambda>i. 2) 0 (Some ''0xCCC'') (Some ''AAAAAAAAA'') store_one =
     (reply 500 (Error ''down''), store_one) \<and>
   findOne ((no_faults(1 := Some ''down'')) 1) (\<lambda>u. userid u = ''AAAAAAAAA'') store_one =
     Inl (DatabaseError ''down'') \<and>
   register_referred (no_faults(1 := Some ''down'')) (\<lambda>i. 2) 0 (Some ''0xCCC'') (Some ''AAAAAAAAA'') store_one =
     (reply 500 (Error ''down''), store_one) \<and>
   create ((no_faults(2 := Some ''timeout'')) 2) (build 0 (generateUserId (\<lambda>i. 2)) ''0xCCC'' (Some ''AAAAAAAAA''))
     store_one = Inl (DatabaseError ''timeout'') \<and>
   create (save_fails 2) (build 0 (generateUserId (\<lambda>i. 2)) ''0xCCC'' (Some ''AAAAAAAAA'')) store_one =
     Inr (build 0 ''CCCCCCCCC'' ''0xCCC'' (Some ''AAAAAAAAA''),
          store_one @ [build 0 ''CCCCCCCCC'' ''0xCCC'' (Some ''AAAAAAAAA'')]) \<and>
   save (save_fails 3)
     ((hd store_one)\<lparr>referred_users := referred_users (hd store_one) @ [generateUserId (\<lambda>i. 2)],
                     total_referrals := total_referrals (hd store_one) + 1\<rparr>)
     (store_one @ [build 0 ''CCCCCCCCC'' ''0xCCC'' (Some ''AAAAAAAAA'')]) =
     Inl (DatabaseError ''connection terminated'') \<and>
   register_referred save_fails (\<lambda>i. 2) 0 (Some ''0xCCC'') (Some ''AAAAAAAAA'') store_one =
     (reply 500 (Error ''connection terminated''),
      store_one @ [build 0 ''CCCCCCCCC'' ''0xCCC'' (Some ''AAAAAAAAA'')]) \<and>
   store_one @ [build 0 ''CCCCCCCCC'' ''0xCCC'' (Some ''AAAAAAAAA'')] \<noteq> store_one \<and>
   ''0xCCC'' \<notin> set (map wallet_address store_one) \<and> ''ZZZZZZZZZ'' \<notin> set (map userid store_one) \<and>
   register_referred no_faults (\<lambda>i. 2) 0 (Some ''0xCCC'') (Some ''ZZZZZZZZZ'') store_one =
     (reply 404 (Error ''Referrer not found''), store_one)"
proof -
  let ?w = "''0xCCC''" and ?r = "''AAAAAAAAA''" and ?d = "\<lambda>i::nat. 2::nat"
  let ?new = "build 0 ''CCCCCCCCC'' ''0xCCC'' (Some ''AAAAAAAAA'')"
  note ev = store_one_rows findOne_def create_def save_def build_def no_faults_def save_fails_def
    generateUserId_2
  have ne: "?w \<noteq> [] \<and> ?r \<noteq> []"
    by simp
  have a: "register_referred (no_faults(2 := Some ''timeout'')) ?d 0 (Some ?w) (Some ?r) store_one =
     (reply 500 (Error ''timeout''), store_one) \<and> status (reply 500 (Error ''timeout'')) \<noteq> 201"
    by (simp add: ev register_referred_def Let_def reply_def)
  have f0: "findOne ((no_faults(0 := Some ''down'')) 0) (\<lambda>u. wallet_address u = ?w) store_one =
     Inl (DatabaseError ''down'')"
    by (simp add: ev)
  have f1: "findOne ((no_faults(1 := Some ''down'')) 0) (\<lambda>u. wallet_address u = ?w) store_one = Inr None \<and>
     findOne ((no_faults(1 := Some ''down'')) 1) (\<lambda>u. userid u = ?r) store_one =
     Inl (DatabaseError ''down'')"
    by (simp add: ev)
  have f2: "findOne ((no_faults(2 := Some ''timeout'')) 0) (\<lambda>u. wallet_address u = ?w) store_one = Inr None \<and>
     findOne ((no_faults(2 := Some ''timeout'')) 1) (\<lambda>u. userid u = ?r) store_one =
       Inr (Some (hd store_one)) \<and>
     create ((no_faults(2 := Some ''timeout'')) 2) (build 0 (generateUserId ?d) ?w (Some ?r))
       store_one = Inl (DatabaseError ''timeout'')"
    by (simp add: ev)
  have f3: "findOne (save_fails 0) (\<lambda>u. wallet_address u = ?w) store_one = Inr None \<and>
     findOne (save_fails 1) (\<lambda>u. userid u = ?r) store_one = Inr (Some (hd store_one)) \<and>
     create (save_fails 2) (build 0 (generateUserId ?d) ?w (Some ?r)) store_one =
       Inr (?new, store_one @ [?new]) \<and>
     save (save_fails 3)
       ((hd store_one)\<lparr>referred_users := referred_users (hd store_one) @ [generateUserId ?d],
                       total_referrals := total_referrals (hd store_one) + 1\<rparr>)
       (store_one @ [?new]) = Inl (DatabaseError ''connection terminated'')"
    by (simp add: ev)
  have c: "?w \<notin> set (map wallet_address store_one) \<and> ''ZZZZZZZZZ'' \<noteq> [] \<and>
           ''ZZZZZZZZZ'' \<notin> set (map userid store_one)"
    by (simp add: store_one_rows)
  from register_referred_failure [where flt = "no_faults(2 := Some ''timeout'')" and draw = ?d
         and now = 0 and wallet = "Some ?w" and rid = "Some ?r" and s = store_one
         and resp = "reply 500 (Error ''timeout'')" and s' = store_one and w = ?w
         and r = "''ZZZZZZZZZ''"] a ne c
  have one: "take (length store_one) store_one = store_one \<and>
     register_referred no_faults ?d 0 (Some ?w) (Some ''ZZZZZZZZZ'') store_one =
     (reply 404 (Error ''Referrer not found''), store_one)"
    by simp
  from register_referred_failure [where flt = "no_faults(0 := Some ''down'')" and draw = ?d
         and now = 0 and s = store_one and w = ?w and r = ?r and e = "DatabaseError ''down''"] ne f0
  have two: "register_referred (no_faults(0 := Some ''down'')) ?d 0 (Some ?w) (Some ?r) store_one =
     (reply 500 (Error ''down''), store_one)"
    by simp
  from register_referred_failure [where flt = "no_faults(1 := Some ''down'')" and draw = ?d
         and now = 0 and s = store_one and w = ?w and r = ?r and e = "DatabaseError ''down''"] ne f1
  have three: "register_referred (no_faults(1 := Some ''down'')) ?d 0 (Some ?w) (Some ?r) store_one =
     (reply 500 (Error ''down''), store_one)"
    by simp
  from register_referred_failure [where flt = "no_faults(2 := Some ''timeout'')" and draw = ?d
         and now = 0 and s = store_one and w = ?w and r = ?r and e = "DatabaseError ''timeout''"
         and referrer = "hd store_one"] ne f2
  have four: "register_referred (no_faults(2 := Some ''timeout'')) ?d 0 (Some ?w) (Some ?r) store_one =
     (reply 500 (Error ''timeout''), store_one)"
    by simp
  from register_referred_failure [where flt = save_fails and draw = ?d
         and now = 0 and s = store_one and w = ?w and r = ?r
         and e = "DatabaseError ''connection terminated''"
         and referrer = "hd store_one" and newUser = ?new and ?s1.0 = "store_one @ [?new]"] ne f3
  have five: "register_referred save_fails ?d 0 (Some ?w) (Some ?r) store_one =
     (reply 500 (Error ''connection terminated''), store_one @ [?new]) \<and>
     store_one @ [?new] \<noteq> store_one"
    by (simp add: generateUserId_2)
  from a f0 f1 f2 f3 c one two three four five show ?thesis
    by simp
qed

text \<open>
  Claim C6, as stated: it fails, the answer to a rejected insert is status 500. Here the
  generated identifier is the one of a row of the table.
\<close>

theorem insert_conflict_counterexample:
  "''0xBBB'' \<notin> set (map wallet_address store_one) \<and>
   create None (build 0 (generateUserId (\<lambda>i. 0)) ''0xBBB'' None) store_one = Inl UniqueConstraintError \<and>
   register no_faults (\<lambda>i. 0) 0 (Some ''0xBBB'') store_one =
     (reply 500 (Error ''Validation error''), store_one) \<and>
   status (reply 500 (Error ''Validation error'')) = 500"
  by (simp add: store_one_rows register_def findOne_def create_def build_def
        no_faults_def generateUserId_0 Let_def reply_def)

text \<open>
  Claim C6, amended. When the insert of \<^verbatim>\<open>/register\<close> or of \<^verbatim>\<open>/register-referred\<close> is
  rejected for a uniqueness constraint, the answer is status 500 with the error's message
  as \<^verbatim>\<open>error\<close>, and the table is unchanged.
\<close>

theorem insert_conflict_is_500:
  "(w \<noteq> [] \<and> findOne (flt 0) (\<lambda>u. wallet_address u = w) s = Inr None \<and>
    create (flt 1) (build now (generateUserId draw) w None) s = Inl UniqueConstraintError \<longrightarrow>
      register flt draw now (Some w) s = (reply 500 (Error (message UniqueConstraintError)), s)) \<and>
   (w \<noteq> [] \<and> r \<noteq> [] \<and> findOne (flt 0) (\<lambda>u. wallet_address u = w) s = Inr None \<and>
    findOne (flt 1) (\<lambda>u. userid u = r) s = Inr (Some referrer) \<and>
    create (flt 2) (build now (generateUserId draw) w (Some r)) s = Inl UniqueConstraintError \<longrightarrow>
      register_referred flt draw now (Some w) (Some r) s =
        (reply 500 (Error (message UniqueConstraintError)), s))"
  by (simp add: register_def register_referred_def Let_def)

theorem insert_conflict_is_500_witness:
  "findOne (no_faults 0) (\<lambda>u. wallet_address u = ''0xDDD'') store_two = Inr None \<and>
   create (no_faults 1) (build 0 (generateUserId (\<lambda>i. 2)) ''0xDDD'' None) store_two =
     Inl UniqueConstraintError \<and>
   register no_faults (\<lambda>i. 2) 0 (Some ''0xDDD'') store_two =
     (reply 500 (Error ''Validation error''), store_two) \<and>
   findOne (no_faults 1) (\<lambda>u. userid u = ''CCCCCCCCC'') store_two = Inr (Some (last store_two)) \<and>
   create (no_faults 2) (build 0 (generateUserId (\<lambda>i. 2)) ''0xDDD'' (Some ''CCCCCCCCC'')) store_two =
     Inl UniqueConstraintError \<and>
   register_referred no_faults (\<lambda>i. 2) 0 (Some ''0xDDD'') (Some ''CCCCCCCCC'') store_two =
     (reply 500 (Error ''Validation error''), store_two)"
proof -
  have pre: "''0xDDD'' \<noteq> [] \<and> ''CCCCCCCCC'' \<noteq> [] \<and>
      findOne (no_faults 0) (\<lambda>u. wallet_address u = ''0xDDD'') store_two = Inr None \<and>
      findOne (no_faults 1) (\<lambda>u. userid u = ''CCCCCCCCC'') store_two = Inr (Some (last store_two)) \<and>
      create (no_faults 1) (build 0 (generateUserId (\<lambda>i. 2)) ''0xDDD'' None) store_two =
        Inl UniqueConstraintError \<and>
      create (no_faults 2) (build 0 (generateUserId (\<lambda>i. 2)) ''0xDDD'' (Some ''CCCCCCCCC'')) store_two =
        Inl UniqueConstraintError"
    by (simp add: store_two_rows findOne_def create_def build_def no_faults_def generateUserId_2)
  from insert_conflict_is_500 [of "''0xDDD''" no_faults store_two 0 "\<lambda>i. 2" "''CCCCCCCCC''"
         "last store_two"] pre
  show ?thesis
    by simp
qed

text \<open>
  Claim C7 at a registered wallet address that the mapping misses: the address
  \<^verbatim>\<open>__proto__\<close> is registered, the lookup of the user finds it, and the bulk lookup of
  the array that holds it answers the empty mapping.
\<close>

theorem bulk_lookup_proto_key:
  "reachable store_proto \<and> ''__proto__'' \<in> set (map wallet_address store_proto) \<and>
   get_user no_faults ''__proto__'' store_proto =
     reply 200 (UserInfo ''AAAAAAAAA'' ''__proto__'' None [] 0 0) \<and>
   bulk_lookup no_faults (JArray [''__proto__'']) store_proto = reply 200 (Mapping [])"
proof -
  have "reachable store_proto"
    unfolding store_proto_def by (rule reachable_step [OF reachable_init])
  then show ?thesis
    by (simp add: store_proto_rows bulk_lookup_def get_user_def findOne_def findAll_def
          no_faults_def forEach_user_def obj_set_def)
qed




text \<open>
  Claim C9. No user is their own referrer: in every reachable state of the table (whatever
  the requests, failed ones included) the \<^verbatim>\<open>referred_by\<close> of every user differs from the
  user's own identifier. A referred registration whose generated identifier is the
  identifier of the referrer it names creates no row: the table is unchanged.
\<close>

theorem no_self_referral:
  "(reachable s \<longrightarrow> (\<forall>u \<in> set s. referred_by u \<noteq> Some (userid u))) \<and>
   (r \<in> set (map userid s) \<and> generateUserId draw = r \<longrightarrow>
      snd (register_referred flt draw now wallet (Some r) s) = s)"
proof (intro conjI impI ballI)
  fix u assume "reachable s" "u \<in> set s"
  then show "referred_by u \<noteq> Some (userid u)"
    using reachable_wf [of s] by (auto simp: wf_store_def)
next
  assume collide: "r \<in> set (map userid s) \<and> generateUserId draw = r"
  obtain resp s' where run: "register_referred flt draw now wallet (Some r) s = (resp, s')"
    by force
  from register_referred_shape [OF run] collide have "s' = s"
    by auto
  with run show "snd (register_referred flt draw now wallet (Some r) s) = s"
    by simp
qed

theorem no_self_referral_witness:
  "reachable store_two \<and> last store_two \<in> set store_two \<and>
   referred_by (last store_two) = Some ''AAAAAAAAA'' \<and> userid (last store_two) = ''CCCCCCCCC'' \<and>
   ''AAAAAAAAA'' \<in> set (map userid store_two) \<and> generateUserId (\<lambda>i. 0) = ''AAAAAAAAA'' \<and>
   snd (register_referred no_faults (\<lambda>i. 0) 0 (Some ''0xDDD'') (Some ''AAAAAAAAA'') store_two) = store_two"
proof -
  have r: "reachable store_two"
    by (rule reachable_ok_reachable [OF reachable_ok_store_two])
  have c: "''AAAAAAAAA'' \<in> set (map userid store_two) \<and> generateUserId (\<lambda>i. 0) = ''AAAAAAAAA''"
    by (simp add: store_two_rows generateUserId_0)
  from no_self_referral [of store_two "''AAAAAAAAA''" "\<lambda>i. 0" no_faults 0 "Some ''0xDDD''"] r c
  show ?thesis
    by (simp add: store_two_rows)
qed

text \<open>
  Claim C10. The mapping that \<^verbatim>\<open>/bulk-lookup\<close> answers has every key at most once,
  whatever the repetitions in the array; and the empty array is answered with status 200
  and the empty mapping.
\<close>

theorem bulk_lookup_keys_once:
  "(\<exists>m. bulk_lookup no_faults (JArray ws) s = reply 200 (Mapping m) \<and>
         (\<forall>a. count_list (map fst m) a \<le> 1)) \<and>
   bulk_lookup no_faults (JArray []) s = reply 200 (Mapping [])"
proof
  let ?m = "forEach_user (filter (\<lambda>u. wallet_address u \<in> set ws) s) []"
  have "distinct (map fst ?m)"
    by (rule forEach_user_distinct) simp
  then have "\<forall>a. count_list (map fst ?m) a \<le> 1"
    by (intro allI count_list_distinct)
  moreover have "bulk_lookup no_faults (JArray ws) s = reply 200 (Mapping ?m)"
    by (simp add: bulk_lookup_def findAll_def no_faults_def)
  ultimately show "\<exists>m. bulk_lookup no_faults (JArray ws) s = reply 200 (Mapping m) \<and>
         (\<forall>a. count_list (map fst m) a \<le> 1)"
    by blast
  show "bulk_lookup no_faults (JArray []) s = reply 200 (Mapping [])"
    by (simp add: bulk_lookup_def findAll_def no_faults_def forEach_user_def)
qed

theorem bulk_lookup_keys_once_witness:
  "bulk_lookup no_faults (JArray [''0xCCC'', ''0xAAA'', ''0xCCC'', ''0xZZZ'']) store_two =
     reply 200 (Mapping [(''0xAAA'', ''AAAAAAAAA''), (''0xCCC'', ''CCCCCCCCC'')]) \<and>
   count_list (map fst [(''0xAAA'', ''AAAAAAAAA''), (''0xCCC'', ''CCCCCCCCC'')]) ''0xCCC'' = 1 \<and>
   bulk_lookup no_faults (JArray []) store_two = reply 200 (Mapping [])"
proof -
  have run: "bulk_lookup no_faults (JArray [''0xCCC'', ''0xAAA'', ''0xCCC'', ''0xZZZ'']) store_two =
     reply 200 (Mapping [(''0xAAA'', ''AAAAAAAAA''), (''0xCCC'', ''CCCCCCCCC'')])"
    by (simp add: store_two_rows bulk_lookup_def findAll_def no_faults_def forEach_user_def
          obj_set_def)
  from bulk_lookup_keys_once [of "[''0xCCC'', ''0xAAA'', ''0xCCC'', ''0xZZZ'']" store_two] run
  show ?thesis
    by simp
qed

end
